theory Spec2Isabelle
  imports Complex_Main "HOL-Library.Word"
begin

section \<open>Strings\<close>

text \<open>
  A JavaScript string is a sequence of UTF-16 code units. \<open>length\<close>, \<open>slice\<close> and \<open>trim\<close>
  count and test code units, and are defined below as ECMAScript defines them. An
  Isabelle literal stands for the string of the same characters: \<open>js\<close> takes each
  character to the code unit of its number.
\<close>

type_synonym code_unit = "16 word"
type_synonym js_string = "code_unit list"

abbreviation js :: "string \<Rightarrow> js_string" where
  "js s \<equiv> map of_char s"

definition is_whitespace :: "code_unit \<Rightarrow> bool" where
  \<comment> \<open>What \<open>String.prototype.trim\<close> strips: ECMAScript's WhiteSpace (TAB, VT, FF,
      U+FEFF and the category Zs: SPACE, U+00A0, U+1680, U+2000..U+200A, U+202F,
      U+205F, U+3000) and LineTerminator (LF, CR, U+2028, U+2029).\<close>
  "is_whitespace c \<longleftrightarrow>
     c \<in> set [0x0009, 0x000A, 0x000B, 0x000C, 0x000D, 0x0020, 0x00A0, 0x1680,
              0x2028, 0x2029, 0x202F, 0x205F, 0x3000, 0xFEFF]
     \<or> (0x2000 \<le> c \<and> c \<le> 0x200A)"

definition trim :: "js_string \<Rightarrow> js_string" where
  "trim s = rev (dropWhile is_whitespace (rev (dropWhile is_whitespace s)))"

definition slice :: "nat \<Rightarrow> nat \<Rightarrow> js_string \<Rightarrow> js_string" where
  \<comment> \<open>\<open>s.slice(b, e)\<close> for non-negative \<open>b\<close> and \<open>e\<close>: code units \<open>b\<close> to \<open>e - 1\<close>.\<close>
  "slice b e s = drop b (take e s)"

text \<open>
  \<open>String.prototype.toUpperCase\<close> applies the Unicode case mapping of the JavaScript
  engine (U+00DF becomes \<open>SS\<close>, U+00E9 becomes U+00C9). That table is the engine's,
  not the repository's: the functions below take \<open>toUpperCase\<close> as a parameter, and what
  is proved of them holds for every such function. On a string of ASCII characters
  every engine's \<open>toUpperCase\<close> is \<open>ascii_upper\<close>, which the examples use.
\<close>

definition ascii_upper :: "js_string \<Rightarrow> js_string" where
  \<comment> \<open>\<open>a\<close>..\<open>z\<close> (0x61..0x7A) become \<open>A\<close>..\<open>Z\<close>; every other code unit is kept.\<close>
  "ascii_upper s = map (\<lambda>c. if 0x61 \<le> c \<and> c \<le> 0x7A then c - 0x20 else c) s"

fun join :: "js_string \<Rightarrow> js_string list \<Rightarrow> js_string" where
  \<comment> \<open>\<open>xs.join(sep)\<close> for an array of strings.\<close>
  "join sep [] = []"
| "join sep [x] = x"
| "join sep (x # y # ys) = x @ sep @ join sep (y # ys)"

definition newline :: js_string where
  "newline = [0x000A]"

definition cross_mark :: js_string where
  \<comment> \<open>U+274C, one code unit.\<close>
  "cross_mark = [0x274C]"

definition check_mark :: js_string where
  \<comment> \<open>U+2705, one code unit.\<close>
  "check_mark = [0x2705]"


section \<open>Parsed JSON values and property access\<close>

datatype json =
    JNull
  | JBool bool
  | JNum real
  | JStr js_string
  | JArr "json list"
  | JObj "(js_string \<times> json) list"

text \<open>
  A JavaScript value read from a parsed body is a \<^typ>\<open>json\<close>, or \<open>undefined\<close>, which is
  \<^const>\<open>None\<close> of \<^typ>\<open>json option\<close>. Every \<open>throw\<close> of the source is a value of
  \<open>error\<close>.
\<close>

datatype error = TypeError | SyntaxError | NetworkError | HttpError

fun get_prop :: "json \<Rightarrow> js_string \<Rightarrow> error + json option" where
  \<comment> \<open>\<open>v.k\<close> for the property names the component reads (\<open>summary\<close>, \<open>data\<close>,
      \<open>output\<close>, \<open>code\<close>, \<open>email\<close>): reading a property of \<open>null\<close> throws; an object
      yields the property or \<open>undefined\<close>; booleans, numbers, strings and arrays have no
      property of these names.\<close>
  "get_prop JNull k = Inl TypeError"
| "get_prop (JObj ps) k = Inr (map_of ps k)"
| "get_prop v k = Inr None"

fun opt_chain :: "json option \<Rightarrow> js_string \<Rightarrow> json option" where
  \<comment> \<open>\<open>x?.k\<close>: \<open>undefined\<close> when \<open>x\<close> is \<open>undefined\<close> or \<open>null\<close>, else \<open>x.k\<close>.\<close>
  "opt_chain None k = None"
| "opt_chain (Some JNull) k = None"
| "opt_chain (Some (JObj ps)) k = map_of ps k"
| "opt_chain (Some v) k = None"

definition ATTENDANCE_NOT_VALID :: js_string where
  "ATTENDANCE_NOT_VALID = js ''ATTENDANCE_NOT_VALID''"

definition nested_code :: "json \<Rightarrow> error + json option" where
  \<comment> \<open>\<open>user.data?.output?.data?.code\<close>\<close>
  "nested_code user =
     (case get_prop user (js ''data'') of
        Inl e \<Rightarrow> Inl e
      | Inr d \<Rightarrow> Inr (opt_chain (opt_chain (opt_chain d (js ''output'')) (js ''data'')) (js ''code'')))"

definition is_failed :: "json \<Rightarrow> error + bool" where
  \<comment> \<open>The callback of \<open>result.summary.filter\<close>.\<close>
  "is_failed user =
     (case nested_code user of
        Inl e \<Rightarrow> Inl e
      | Inr c \<Rightarrow> Inr (c = Some (JStr ATTENDANCE_NOT_VALID)))"

fun filter_failed :: "json list \<Rightarrow> error + json list" where
  \<comment> \<open>\<open>Array.prototype.filter\<close> with a callback that may throw.\<close>
  "filter_failed [] = Inr []"
| "filter_failed (user # users) =
     (case is_failed user of
        Inl e \<Rightarrow> Inl e
      | Inr keep \<Rightarrow>
          (case filter_failed users of
             Inl e \<Rightarrow> Inl e
           | Inr rest \<Rightarrow> Inr (if keep then user # rest else rest)))"

fun template_str :: "json option \<Rightarrow> js_string" where
  \<comment> \<open>\<open>${reasonCode}\<close>. The value interpolated is the nested code of a user that passed
      the filter, hence a string (lemma \<open>filter_failed_code\<close>); the renderings of
      \<open>undefined\<close>, \<open>null\<close>, booleans and objects are those of JavaScript, and numbers
      and arrays, whose renderings are not modelled, are given the empty one.\<close>
  "template_str None = js ''undefined''"
| "template_str (Some (JStr s)) = s"
| "template_str (Some JNull) = js ''null''"
| "template_str (Some (JBool b)) = (if b then js ''true'' else js ''false'')"
| "template_str (Some (JObj ps)) = js ''[object Object]''"
| "template_str (Some v) = []"

definition failed_message :: "(js_string \<Rightarrow> js_string) \<Rightarrow> json \<Rightarrow> error + js_string" where
  \<comment> \<open>The callback of \<open>failedUsers.map\<close>: \<open>email.slice(0, 11).toUpperCase()\<close> exists
      only when \<open>email\<close> is a string.\<close>
  "failed_message toUpperCase user =
     (case get_prop user (js ''email'') of
        Inl e \<Rightarrow> Inl e
      | Inr email \<Rightarrow>
          (case nested_code user of
             Inl e \<Rightarrow> Inl e
           | Inr reasonCode \<Rightarrow>
               (case email of
                  Some (JStr a) \<Rightarrow> Inr (toUpperCase (slice 0 11 a) @ js '': '' @ template_str reasonCode)
                | _ \<Rightarrow> Inl TypeError)))"

fun map_failed :: "(js_string \<Rightarrow> js_string) \<Rightarrow> json list \<Rightarrow> error + js_string list" where
  "map_failed toUpperCase [] = Inr []"
| "map_failed toUpperCase (user # users) =
     (case failed_message toUpperCase user of
        Inl e \<Rightarrow> Inl e
      | Inr m \<Rightarrow>
          (case map_failed toUpperCase users of
             Inl e \<Rightarrow> Inl e
           | Inr ms \<Rightarrow> Inr (m # ms)))"


section \<open>The submission client: \<open>handleAddTask\<close>\<close>

record message =
  msg_text :: "js_string option"  \<comment> \<open>the field \<open>text\<close>; \<open>null\<close> is \<^const>\<open>None\<close>\<close>
  isSuccess :: bool

text \<open>
  The state of \<open>TodoApp\<close>: its four \<open>useState\<close> cells, and the identifiers of the requests
  that \<open>fetch\<close> has sent and that have not settled yet.
\<close>

record app =
  taskInput :: js_string
  isLoading :: bool
  message :: message
  showQrScanner :: bool
  inFlight :: "js_string list"

text \<open>
  What awaiting \<open>fetch\<close> and \<open>response.json()\<close> yields: a rejected \<open>fetch\<close>, or a response
  with its \<open>ok\<close> flag and its body, \<^const>\<open>None\<close> when the body is not JSON.
\<close>

datatype fetch_result = NetworkFailure | Response bool "json option"

definition please_enter :: message where
  "please_enter = \<lparr>msg_text = Some (js ''Please enter a task or scan QR''), isSuccess = False\<rparr>"

definition success_message :: message where
  "success_message = \<lparr>msg_text = Some (check_mark @ js '' Task completed successfully!''), isSuccess = True\<rparr>"

definition validation_message :: "js_string list \<Rightarrow> message" where
  "validation_message failedMessages =
     \<lparr>msg_text = Some (cross_mark @ js '' Some tasks failed:'' @ newline @ join newline failedMessages),
      isSuccess = False\<rparr>"

definition generic_failure :: message where
  "generic_failure =
     \<lparr>msg_text = Some (cross_mark @ js '' Failed to process task. Please try again.''), isSuccess = False\<rparr>"

definition input_value :: "js_string option \<Rightarrow> app \<Rightarrow> js_string" where
  \<comment> \<open>\<open>attendanceId || taskInput.trim()\<close>; \<open>null\<close> and the empty string are falsy.\<close>
  "input_value attendanceId s =
     (case attendanceId of
        None \<Rightarrow> trim (taskInput s)
      | Some a \<Rightarrow> if a = [] then trim (taskInput s) else a)"

definition handleAddTask :: "js_string option \<Rightarrow> app \<Rightarrow> app" where
  \<comment> \<open>\<open>handleAddTask\<close> up to its \<open>await fetch(...)\<close>.\<close>
  "handleAddTask attendanceId s =
     (let inputValue = input_value attendanceId s in
      if inputValue = [] then s\<lparr>message := please_enter\<rparr>
      else s\<lparr>isLoading := True,
             message := \<lparr>msg_text = None, isSuccess = False\<rparr>,
             inFlight := inFlight s @ [inputValue]\<rparr>)"

definition try_block :: "(js_string \<Rightarrow> js_string) \<Rightarrow> fetch_result \<Rightarrow> app \<Rightarrow> error + app" where
  \<comment> \<open>The \<open>try\<close> block after the request is sent; \<^const>\<open>Inl\<close> is a throw.\<close>
  "try_block toUpperCase r s =
     (case r of
        NetworkFailure \<Rightarrow> Inl NetworkError
      | Response ok body \<Rightarrow>
          if \<not> ok then Inl HttpError
          else (case body of
             None \<Rightarrow> Inl SyntaxError
           | Some result \<Rightarrow>
              (case get_prop result (js ''summary'') of
                 Inl e \<Rightarrow> Inl e
               | Inr summary \<Rightarrow>
                  (case summary of
                     Some (JArr users) \<Rightarrow>
                       (case filter_failed users of
                          Inl e \<Rightarrow> Inl e
                        | Inr failedUsers \<Rightarrow>
                            if length failedUsers = 0
                            then Inr (s\<lparr>message := success_message,
                                        taskInput := [],
                                        showQrScanner := False\<rparr>)
                            else (case map_failed toUpperCase failedUsers of
                               Inl e \<Rightarrow> Inl e
                             | Inr failedMessages \<Rightarrow>
                                 Inr (s\<lparr>message := validation_message failedMessages\<rparr>)))
                   | _ \<Rightarrow> Inl TypeError))))"

definition handleAddTask_settle ::
  "(js_string \<Rightarrow> js_string) \<Rightarrow> js_string \<Rightarrow> fetch_result \<Rightarrow> app \<Rightarrow> app" where
  \<comment> \<open>The rest of \<open>handleAddTask\<close>, run when the request for \<open>inputValue\<close> settles:
      \<open>try\<close>, \<open>catch\<close>, \<open>finally\<close>.\<close>
  "handleAddTask_settle toUpperCase inputValue r s =
     (let s1 = (case try_block toUpperCase r s of
                  Inl err \<Rightarrow> s\<lparr>message := generic_failure\<rparr>
                | Inr s' \<Rightarrow> s')
      in s1\<lparr>isLoading := False, inFlight := remove1 inputValue (inFlight s1)\<rparr>)"


section \<open>The screen: triggers of \<open>handleAddTask\<close>\<close>

definition handleQrScan :: "js_string \<Rightarrow> app \<Rightarrow> app" where
  \<comment> \<open>\<open>setTaskInput(scannedData); setShowQrScanner(false); handleAddTask(scannedData)\<close>.
      \<open>handleAddTask\<close> reads the state of the render it was created in, so it runs on \<open>s\<close>;
      the two setters write cells it does not write.\<close>
  "handleQrScan scannedData s =
     (handleAddTask (Some scannedData) s)\<lparr>taskInput := scannedData, showQrScanner := False\<rparr>"

definition handleQrError :: "js_string \<Rightarrow> app \<Rightarrow> app" where
  "handleQrError err s = s\<lparr>message := \<lparr>msg_text = Some err, isSuccess = False\<rparr>\<rparr>"

text \<open>
  The events the rendered screen can receive. A disabled control receives none, which is
  written out as the first test of its case.
  \<^item> \<open>Change v\<close>: the text entry's \<open>onChange\<close>; the entry is \<open>disabled={isLoading}\<close>.
  \<^item> \<open>KeyPress k\<close>: the text entry's \<open>onKeyPress\<close> with \<open>e.key = k\<close>.
  \<^item> \<open>ClickAdd\<close>: the Add button, \<open>disabled={isLoading || !taskInput.trim()}\<close>.
  \<^item> \<open>ClickQr\<close>: the QR/Close toggle, \<open>disabled={isLoading}\<close>.
  \<^item> \<open>ClickClose\<close>: the cross of the scanner panel, rendered only while \<open>showQrScanner\<close>.
  \<^item> \<open>Scan d\<close>: the mounted \<open>QrScanner\<close> calls \<open>onScan(d)\<close>; it is mounted only while
    \<open>showQrScanner\<close>, and \<open>d\<close> is truthy (see \<open>tick\<close> below).
  \<^item> \<open>ScanError e\<close>: the mounted \<open>QrScanner\<close> calls \<open>onError(e)\<close>.
  \<^item> \<open>Settle a r\<close>: the request sent for \<open>a\<close> settles with \<open>r\<close>.
\<close>

datatype event =
    Change js_string
  | KeyPress js_string
  | ClickAdd
  | ClickQr
  | ClickClose
  | Scan js_string
  | ScanError js_string
  | Settle js_string fetch_result

fun step :: "(js_string \<Rightarrow> js_string) \<Rightarrow> app \<Rightarrow> event \<Rightarrow> app" where
  "step toUpperCase s (Change v) = (if isLoading s then s else s\<lparr>taskInput := v\<rparr>)"
| "step toUpperCase s (KeyPress k) =
     (if isLoading s then s
      else if k = js ''Enter'' \<and> trim (taskInput s) \<noteq> [] \<and> \<not> isLoading s
           then handleAddTask None s else s)"
| "step toUpperCase s ClickAdd =
     (if isLoading s \<or> trim (taskInput s) = [] then s else handleAddTask None s)"
| "step toUpperCase s ClickQr =
     (if isLoading s then s else s\<lparr>showQrScanner := \<not> showQrScanner s\<rparr>)"
| "step toUpperCase s ClickClose =
     (if showQrScanner s then s\<lparr>showQrScanner := False\<rparr> else s)"
| "step toUpperCase s (Scan d) =
     (if showQrScanner s \<and> d \<noteq> [] then handleQrScan d s else s)"
| "step toUpperCase s (ScanError e) =
     (if showQrScanner s then handleQrError e s else s)"
| "step toUpperCase s (Settle a r) =
     (if a \<in> set (inFlight s) then handleAddTask_settle toUpperCase a r s else s)"

definition run :: "(js_string \<Rightarrow> js_string) \<Rightarrow> app \<Rightarrow> event list \<Rightarrow> app" where
  "run toUpperCase s es = foldl (step toUpperCase) s es"

definition initial :: app where
  \<comment> \<open>The initial values of the \<open>useState\<close> cells; no request has been sent.\<close>
  "initial = \<lparr>taskInput = [], isLoading = False,
              message = \<lparr>msg_text = None, isSuccess = False\<rparr>,
              showQrScanner = False, inFlight = []\<rparr>"

definition entry_disabled :: "app \<Rightarrow> bool" where
  \<comment> \<open>\<open>disabled={isLoading}\<close> of the text entry.\<close>
  "entry_disabled s = isLoading s"

definition add_disabled :: "app \<Rightarrow> bool" where
  \<comment> \<open>\<open>disabled={isLoading || !taskInput.trim()}\<close> of the Add button.\<close>
  "add_disabled s = (isLoading s \<or> trim (taskInput s) = [])"


section \<open>The capture session: \<open>QrScanner\<close>\<close>

text \<open>
  A camera stream is the list of its tracks; the request asks for video only, so
  \<open>getTracks()\<close> and \<open>getVideoTracks()\<close> are that list. \<open>setInterval\<close> returns a positive
  integer, which is truthy: \<open>Timer n\<close> is the handle \<open>n + 1\<close>.
\<close>

type_synonym track = nat
type_synonym media_stream = "track list"

datatype timer = Timer nat

record zoom_range =
  range_min :: real
  range_max :: real
  range_step :: real

record zoom_capability =
  cap_min :: real
  cap_max :: real
  cap_step :: "real option"

text \<open>
  The component's cells and refs, followed by what the browser holds: the tracks that
  were stopped, the intervals that are scheduled, the next handle, the zoom constraints
  applied, the \<open>loadedmetadata\<close> handler installed on the video element (with the stream
  its closure holds), and the calls of \<open>onError\<close>.
\<close>

record scanner =
  hasCamera :: bool
  zoomLevel :: real
  zoomRange :: zoom_range
  scanIntervalRef :: "timer option"
  streamRef :: "media_stream option"
  videoRef :: bool    \<comment> \<open>\<open>videoRef.current\<close> is an element\<close>
  canvasRef :: bool   \<comment> \<open>\<open>canvasRef.current\<close> is an element\<close>
  stopped :: "track list"
  intervals :: "timer list"
  next_handle :: nat
  constraints :: "(track \<times> real) list"
  onloadedmetadata :: "media_stream option"
  errors :: "js_string list"

definition clearInterval :: "timer \<Rightarrow> scanner \<Rightarrow> scanner" where
  \<comment> \<open>Cancels the interval of that handle; nothing happens when none is scheduled.\<close>
  "clearInterval h s = s\<lparr>intervals := removeAll h (intervals s)\<rparr>"

definition stopCamera :: "scanner \<Rightarrow> scanner" where
  "stopCamera s =
     (let s1 = (case streamRef s of
                  Some stream \<Rightarrow> s\<lparr>stopped := stopped s @ stream, streamRef := None\<rparr>
                | None \<Rightarrow> s)
      in case scanIntervalRef s1 of
           Some h \<Rightarrow> clearInterval h s1
         | None \<Rightarrow> s1)"

definition startScanning :: "scanner \<Rightarrow> scanner" where
  "startScanning s =
     (if \<not> videoRef s \<or> \<not> canvasRef s then s
      else s\<lparr>scanIntervalRef := Some (Timer (next_handle s)),
             intervals := Timer (next_handle s) # intervals s,
             next_handle := Suc (next_handle s)\<rparr>)"

datatype camera_request = Granted media_stream | Denied

definition startCamera :: "camera_request \<Rightarrow> scanner \<Rightarrow> scanner" where
  \<comment> \<open>\<open>startCamera\<close> once \<open>getUserMedia\<close> has settled; the handler it installs runs
      later, as \<open>loadedmetadata\<close>.\<close>
  "startCamera req s =
     (case req of
        Granted stream \<Rightarrow>
          (let s1 = s\<lparr>streamRef := Some stream\<rparr>
           in if videoRef s1 then s1\<lparr>onloadedmetadata := Some stream\<rparr> else s1)
      | Denied \<Rightarrow>
          s\<lparr>hasCamera := False,
            errors := errors s @ [js ''Camera access denied or not available'']\<rparr>)"

definition loadedmetadata :: "zoom_capability option \<Rightarrow> scanner \<Rightarrow> scanner" where
  \<comment> \<open>The video element fires \<open>loadedmetadata\<close>; \<open>caps\<close> is \<open>capabilities.zoom\<close> of the
      first track. With no track, \<open>track.getCapabilities()\<close> throws inside the handler
      and nothing more runs.\<close>
  "loadedmetadata caps s =
     (case onloadedmetadata s of
        None \<Rightarrow> s
      | Some stream \<Rightarrow>
          (case stream of
             [] \<Rightarrow> s
           | track # _ \<Rightarrow>
               startScanning
                 (case caps of
                    None \<Rightarrow> s
                  | Some z \<Rightarrow>
                      s\<lparr>zoomRange := \<lparr>range_min = cap_min z, range_max = cap_max z,
                                      range_step = (case cap_step z of
                                                      None \<Rightarrow> 1
                                                    | Some st \<Rightarrow> if st = 0 then 1 else st)\<rparr>,
                        zoomLevel := cap_min z,
                        constraints := constraints s @ [(track, cap_min z)]\<rparr>)))"

datatype decode = DecodeError | NoCode | Code js_string

definition tick :: "timer \<Rightarrow> bool \<Rightarrow> decode \<Rightarrow> scanner \<Rightarrow> js_string option" where
  \<comment> \<open>One period of the interval \<open>h\<close>: its callback runs while the browser has the
      interval scheduled, whether or not \<open>scanIntervalRef\<close> still holds \<open>h\<close>. The
      result is the argument of \<open>onScan\<close>, if it is called. \<open>ready\<close> is
      \<open>video.readyState === video.HAVE_ENOUGH_DATA\<close>; \<open>d\<close> is what \<open>getImageData\<close> and
      \<open>jsQR\<close> yield, \<open>DecodeError\<close> when one of them throws.\<close>
  "tick h ready d s =
     (if h \<in> set (intervals s) \<and> ready
      then (case d of Code c \<Rightarrow> if c \<noteq> [] then Some c else None | _ \<Rightarrow> None)
      else None)"

definition effect :: "bool \<Rightarrow> camera_request \<Rightarrow> scanner \<Rightarrow> scanner" where
  \<comment> \<open>The body of \<open>useEffect\<close>; its cleanup is \<^const>\<open>stopCamera\<close>.\<close>
  "effect isActive req s =
     (if isActive \<and> hasCamera s then startCamera req s else stopCamera s)"

definition mounted :: scanner where
  \<comment> \<open>The component after its first render.\<close>
  "mounted = \<lparr>hasCamera = True, zoomLevel = 1,
              zoomRange = \<lparr>range_min = 1, range_max = 1, range_step = 1\<rparr>,
              scanIntervalRef = None, streamRef = None,
              videoRef = True, canvasRef = True,
              stopped = [], intervals = [], next_handle = 0,
              constraints = [], onloadedmetadata = None, errors = []\<rparr>"

definition session_invariant :: "scanner \<Rightarrow> bool" where
  \<comment> \<open>The invariant as the specification words it: the timer handle is non-null iff
      the stream is held.\<close>
  "session_invariant s = ((scanIntervalRef s \<noteq> None) = (streamRef s \<noteq> None))"


section \<open>The specification's notions\<close>

text \<open>
  The following definitions are written from the specification's words, to be compared
  with the code above.
\<close>

definition spec_code :: "json \<Rightarrow> json option" where
  \<comment> \<open>The nested code of an entry when every link of the path
      \<open>data.output.data.code\<close> is present: each of \<open>data\<close>, \<open>output\<close>, \<open>data\<close> is an
      object that has the next link.\<close>
  "spec_code user =
     (case user of
        JObj p1 \<Rightarrow>
          (case map_of p1 (js ''data'') of
             Some (JObj p2) \<Rightarrow>
               (case map_of p2 (js ''output'') of
                  Some (JObj p3) \<Rightarrow>
                    (case map_of p3 (js ''data'') of
                       Some (JObj p4) \<Rightarrow> map_of p4 (js ''code'')
                     | _ \<Rightarrow> None)
                | _ \<Rightarrow> None)
           | _ \<Rightarrow> None)
      | _ \<Rightarrow> None)"

definition spec_failing :: "json \<Rightarrow> bool" where
  \<comment> \<open>An entry is a failure iff its nested code is \<open>ATTENDANCE_NOT_VALID\<close>.\<close>
  "spec_failing user = (spec_code user = Some (JStr ATTENDANCE_NOT_VALID))"

definition spec_line :: "(js_string \<Rightarrow> js_string) \<Rightarrow> js_string \<Rightarrow> js_string" where
  \<comment> \<open>The first 11 characters (code units) of the e-mail, upper-cased, then \<open>: \<close>,
      then the code.\<close>
  "spec_line toUpperCase email =
     toUpperCase (take 11 email) @ js '': '' @ ATTENDANCE_NOT_VALID"

definition usable_summary :: "json \<Rightarrow> json list option" where
  \<comment> \<open>The summary list of a body, when the body has a \<open>summary\<close> field that is an array.\<close>
  "usable_summary result =
     (case result of
        JObj ps \<Rightarrow> (case map_of ps (js ''summary'') of Some (JArr users) \<Rightarrow> Some users | _ \<Rightarrow> None)
      | _ \<Rightarrow> None)"

definition transport_failure :: "fetch_result \<Rightarrow> bool" where
  \<comment> \<open>Network error, non-success response, or a body that is not JSON.\<close>
  "transport_failure r =
     (case r of
        NetworkFailure \<Rightarrow> True
      | Response ok body \<Rightarrow> \<not> ok \<or> body = None)"

definition failing_entry :: "js_string \<Rightarrow> json" where
  \<comment> \<open>\<open>{email: e, data: {output: {data: {code: "ATTENDANCE_NOT_VALID"}}}}\<close>\<close>
  "failing_entry e =
     JObj [(js ''email'', JStr e),
           (js ''data'', JObj [(js ''output'', JObj [(js ''data'',
              JObj [(js ''code'', JStr ATTENDANCE_NOT_VALID)])])])]"

definition body_of :: "json list \<Rightarrow> json" where
  \<comment> \<open>\<open>{summary: [...]}\<close>\<close>
  "body_of users = JObj [(js ''summary'', JArr users)]"

definition example_summary :: "json list" where
  \<comment> \<open>Two failing entries around one that has no nested code.\<close>
  "example_summary =
     [failing_entry (js ''alice@example.com''),
      JObj [(js ''email'', JStr (js ''bob@example.com''))],
      failing_entry (js ''Eve@x.io'')]"

definition blank_input :: js_string where
  \<comment> \<open>SPACE, TAB, LF, U+00A0, U+2003, U+2028, U+3000, U+FEFF.\<close>
  "blank_input = [0x0020, 0x0009, 0x000A, 0x00A0, 0x2003, 0x2028, 0x3000, 0xFEFF]"

definition submitting :: "js_string \<Rightarrow> app" where
  \<comment> \<open>The screen after \<open>a\<close> was typed and \<open>handleAddTask()\<close> was called.\<close>
  "submitting a = handleAddTask None (initial\<lparr>taskInput := a\<rparr>)"

definition timer_live :: "scanner \<Rightarrow> bool" where
  \<comment> \<open>The interval that the timer handle names is scheduled.\<close>
  "timer_live s =
     (case scanIntervalRef s of
        None \<Rightarrow> False
      | Some h \<Rightarrow> h \<in> set (intervals s))"

definition scanning :: scanner where
  \<comment> \<open>A session that was granted a stream of two tracks and whose metadata has loaded.\<close>
  "scanning = loadedmetadata None (startCamera (Granted [0, 1]) mounted)"


section \<open>Classification of summary entries\<close>

lemma nested_code_spec: "u \<noteq> JNull \<Longrightarrow> nested_code u = Inr (spec_code u)"
  unfolding nested_code_def spec_code_def
  by (cases u) (auto split: option.splits json.splits)

lemma is_failed_spec: "u \<noteq> JNull \<Longrightarrow> is_failed u = Inr (spec_failing u)"
  by (simp add: is_failed_def nested_code_spec spec_failing_def)

lemma filter_failed_spec:
  "JNull \<notin> set users \<Longrightarrow> filter_failed users = Inr (filter spec_failing users)"
  by (induction users) (auto simp: is_failed_spec)

lemma filter_failed_code:
  "filter_failed users = Inr failedUsers \<Longrightarrow> u \<in> set failedUsers \<Longrightarrow>
   nested_code u = Inr (Some (JStr ATTENDANCE_NOT_VALID))"
proof (induction users arbitrary: failedUsers)
  case Nil
  then show ?case by simp
next
  case (Cons a users)
  then show ?case
    by (auto simp: is_failed_def split: sum.splits if_splits)
qed

lemma failed_message_line:
  assumes "nested_code u = Inr (Some (JStr ATTENDANCE_NOT_VALID))"
    and "get_prop u (js ''email'') = Inr (Some (JStr e))"
  shows "failed_message toUpperCase u = Inr (spec_line toUpperCase e)"
  using assms by (simp add: failed_message_def spec_line_def slice_def)

lemma map_failed_lines:
  assumes "\<forall>u \<in> set fs. nested_code u = Inr (Some (JStr ATTENDANCE_NOT_VALID))"
    and "map (\<lambda>u. get_prop u (js ''email'')) fs = map (\<lambda>e. Inr (Some (JStr e))) emails"
  shows "map_failed toUpperCase fs = Inr (map (spec_line toUpperCase) emails)"
  using assms
proof (induction fs arbitrary: emails)
  case Nil
  then show ?case by simp
next
  case (Cons u fs)
  then obtain e es where es: "emails = e # es" by (cases emails) auto
  with Cons.prems have "failed_message toUpperCase u = Inr (spec_line toUpperCase e)"
    by (intro failed_message_line) auto
  moreover from Cons es have "map_failed toUpperCase fs = Inr (map (spec_line toUpperCase) es)"
    by auto
  ultimately show ?case using es by simp
qed

lemma usable_summary_get_prop:
  "usable_summary result = Some users
     \<longleftrightarrow> get_prop result (js ''summary'') = Inr (Some (JArr users))"
  unfolding usable_summary_def
  by (cases result) (auto split: option.splits json.splits)

lemma try_block_summary:
  assumes "usable_summary result = Some users"
  shows "try_block toUpperCase (Response True (Some result)) s =
     (case filter_failed users of
        Inl e \<Rightarrow> Inl e
      | Inr failedUsers \<Rightarrow>
          if failedUsers = []
          then Inr (s\<lparr>message := success_message, taskInput := [], showQrScanner := False\<rparr>)
          else (case map_failed toUpperCase failedUsers of
                  Inl e \<Rightarrow> Inl e
                | Inr failedMessages \<Rightarrow> Inr (s\<lparr>message := validation_message failedMessages\<rparr>)))"
  using assms unfolding usable_summary_get_prop
  by (simp add: try_block_def split: sum.splits)

lemma try_block_no_summary:
  assumes "usable_summary result = None"
  shows "try_block toUpperCase (Response ok (Some result)) s = Inl TypeError
         \<or> try_block toUpperCase (Response ok (Some result)) s = Inl HttpError"
  using assms unfolding usable_summary_def try_block_def
  by (cases result) (auto split: option.splits json.splits)


section \<open>Facts about \<open>handleAddTask\<close>\<close>

lemma settle_caught:
  "try_block toUpperCase r s = Inl e \<Longrightarrow>
   handleAddTask_settle toUpperCase a r s =
     s\<lparr>message := generic_failure, isLoading := False, inFlight := remove1 a (inFlight s)\<rparr>"
  by (simp add: handleAddTask_settle_def)

lemma try_block_transport:
  "transport_failure r \<Longrightarrow> \<exists>e. try_block toUpperCase r s = Inl e"
  by (cases r) (auto simp: transport_failure_def try_block_def)

text \<open>
  When the \<open>try\<close> block does not throw it ends in one of two ways: the success branch,
  which clears the input, or the validation branch, which keeps it.
\<close>

lemma try_block_returns:
  assumes "try_block toUpperCase r s = Inr s'"
  shows "s' = s\<lparr>message := success_message, taskInput := [], showQrScanner := False\<rparr>
         \<or> (\<exists>failedMessages. s' = s\<lparr>message := validation_message failedMessages\<rparr>)"
  using assms
  by (auto simp: try_block_def
      split: fetch_result.splits if_splits option.splits sum.splits json.splits)

lemma submitting_fields:
  assumes "trim a \<noteq> []"
  shows "taskInput (submitting a) = a"
    and "inFlight (submitting a) = [trim a]"
    and "isLoading (submitting a)"
  using assms
  by (simp_all add: submitting_def initial_def handleAddTask_def input_value_def Let_def)

lemma trim_whitespace_only:
  assumes "\<forall>c \<in> set s. is_whitespace c"
  shows "trim s = []"
proof -
  have blank: "dropWhile is_whitespace s = []"
    using assms by (simp add: dropWhile_eq_Nil_conv)
  show ?thesis
    unfolding trim_def blank by simp
qed


section \<open>Outcomes of a submission\<close>

text \<open>
  Claim C3, as amended. For every successful response whose body has a summary array
  with no \<open>null\<close> entry, at least one failing entry, and a string e-mail in every
  failing entry, the submission resolves to the failure message whose text is the
  heading followed by one line per failing entry, in the order of the summary: the
  first 11 characters (UTF-16 code units, as \<open>slice\<close> counts them) of the entry's e-mail,
  upper-cased by the engine's \<open>toUpperCase\<close>, then \<open>: \<close>, then the code. The input field
  keeps its value. This holds for every e-mail and every \<open>toUpperCase\<close>.
\<close>

theorem validation_failure_lines:
  assumes "usable_summary result = Some users"
    and "JNull \<notin> set users"
    and "filter spec_failing users = failed"
    and "failed \<noteq> []"
    and "map (\<lambda>u. get_prop u (js ''email'')) failed = map (\<lambda>e. Inr (Some (JStr e))) emails"
  shows "handleAddTask_settle toUpperCase a (Response True (Some result)) s =
           s\<lparr>message := \<lparr>msg_text = Some (cross_mark @ js '' Some tasks failed:'' @ newline @
                                         join newline (map (spec_line toUpperCase) emails)),
                         isSuccess = False\<rparr>,
             isLoading := False, inFlight := remove1 a (inFlight s)\<rparr>
         \<and> taskInput (handleAddTask_settle toUpperCase a (Response True (Some result)) s)
             = taskInput s"
proof -
  have ff: "filter_failed users = Inr failed"
    using assms(2,3) by (simp add: filter_failed_spec)
  have "\<forall>u \<in> set failed. nested_code u = Inr (Some (JStr ATTENDANCE_NOT_VALID))"
    using ff filter_failed_code by blast
  then have mf: "map_failed toUpperCase failed = Inr (map (spec_line toUpperCase) emails)"
    using assms(5) by (rule map_failed_lines)
  have "try_block toUpperCase (Response True (Some result)) s =
          Inr (s\<lparr>message := validation_message (map (spec_line toUpperCase) emails)\<rparr>)"
    using assms(4) by (simp add: try_block_summary [OF assms(1)] ff mf)
  then show ?thesis
    by (simp add: handleAddTask_settle_def validation_message_def)
qed

text \<open>
  A summary with two failing entries around a successful one: the message has the two
  lines in order, joined by a line feed. The first is the specification's example,
  \<open>alice@example.com\<close> giving \<open>ALICE@EXAMP: ATTENDANCE_NOT_VALID\<close>; the second e-mail is
  shorter than 11 characters and is taken whole. The input is not cleared.
\<close>

theorem validation_failure_lines_witness:
  "msg_text (message (handleAddTask_settle ascii_upper (js ''x'')
       (Response True (Some (body_of example_summary))) (submitting (js ''x''))))
     = Some (cross_mark @ js '' Some tasks failed:'' @ newline
             @ js ''ALICE@EXAMP: ATTENDANCE_NOT_VALID'' @ newline
             @ js ''EVE@X.IO: ATTENDANCE_NOT_VALID'')
   \<and> taskInput (handleAddTask_settle ascii_upper (js ''x'')
       (Response True (Some (body_of example_summary))) (submitting (js ''x''))) = js ''x''"
proof -
  have 1: "usable_summary (body_of example_summary) = Some example_summary"
    by (simp add: usable_summary_def body_of_def)
  have 2: "JNull \<notin> set example_summary"
    by (simp add: example_summary_def failing_entry_def)
  have 3: "filter spec_failing example_summary
             = [failing_entry (js ''alice@example.com''), failing_entry (js ''Eve@x.io'')]"
    by (simp add: example_summary_def spec_failing_def spec_code_def failing_entry_def
        ATTENDANCE_NOT_VALID_def)
  have 4: "[failing_entry (js ''alice@example.com''), failing_entry (js ''Eve@x.io'')] \<noteq> []"
    by simp
  have 5: "map (\<lambda>u. get_prop u (js ''email''))
               [failing_entry (js ''alice@example.com''), failing_entry (js ''Eve@x.io'')]
             = map (\<lambda>e. Inr (Some (JStr e))) [js ''alice@example.com'', js ''Eve@x.io'']"
    by (simp add: failing_entry_def)
  note settled = conjunct1 [OF validation_failure_lines
      [OF 1 2 3 4 5, of ascii_upper "js ''x''" "submitting (js ''x'')"]]
  show ?thesis
    unfolding settled
    by (simp add: spec_line_def ascii_upper_def ATTENDANCE_NOT_VALID_def submitting_fields
        trim_def is_whitespace_def)
qed

text \<open>
  Claim C3 as stated covers every response with a failing entry. A failing entry that
  has no \<open>email\<close> makes \<open>email.slice\<close> throw, and a \<open>null\<close> entry beside a failing
  one makes the filter throw; in both cases the \<open>catch\<close> block sets the generic failure
  message, which has no line for the failing entry.
\<close>

theorem missing_email_counterexample:
  "spec_failing (JObj [(js ''data'', JObj [(js ''output'', JObj [(js ''data'',
              JObj [(js ''code'', JStr ATTENDANCE_NOT_VALID)])])])])
   \<and> message (handleAddTask_settle ascii_upper (js ''x'')
       (Response True (Some (body_of [JObj [(js ''data'', JObj [(js ''output'', JObj [(js ''data'',
              JObj [(js ''code'', JStr ATTENDANCE_NOT_VALID)])])])]])))
       (submitting (js ''x''))) = generic_failure
   \<and> spec_failing (failing_entry (js ''alice@example.com''))
   \<and> message (handleAddTask_settle ascii_upper (js ''x'')
       (Response True (Some (body_of [failing_entry (js ''alice@example.com''), JNull])))
       (submitting (js ''x''))) = generic_failure"
  by (simp add: spec_failing_def spec_code_def handleAddTask_settle_def try_block_def body_of_def
      is_failed_def nested_code_def failed_message_def failing_entry_def)

text \<open>
  Claim C4, as amended. For every successful response whose body has a summary array
  with no \<open>null\<close> entry and no entry whose nested code is \<open>ATTENDANCE_NOT_VALID\<close>, the
  submission resolves to the success message and the input field is set to the empty
  string.
\<close>

theorem all_entries_succeed_clears_input:
  assumes "usable_summary result = Some users"
    and "JNull \<notin> set users"
    and "\<forall>u \<in> set users. \<not> spec_failing u"
  shows "handleAddTask_settle toUpperCase a (Response True (Some result)) s =
           s\<lparr>message := success_message, taskInput := [], showQrScanner := False,
             isLoading := False, inFlight := remove1 a (inFlight s)\<rparr>"
proof -
  have "filter spec_failing users = []"
    using assms(3) by (simp add: filter_empty_conv)
  then have "filter_failed users = Inr []"
    using assms(2) by (simp add: filter_failed_spec)
  then have "try_block toUpperCase (Response True (Some result)) s =
          Inr (s\<lparr>message := success_message, taskInput := [], showQrScanner := False\<rparr>)"
    by (simp add: try_block_summary [OF assms(1)])
  then show ?thesis
    by (simp add: handleAddTask_settle_def)
qed

theorem all_entries_succeed_clears_input_witness:
  "isSuccess (message (handleAddTask_settle ascii_upper (js ''x'')
      (Response True (Some (body_of [JObj [(js ''email'', JStr (js ''bob@example.com''))]])))
      (submitting (js ''x''))))
   \<and> taskInput (handleAddTask_settle ascii_upper (js ''x'')
      (Response True (Some (body_of [JObj [(js ''email'', JStr (js ''bob@example.com''))]])))
      (submitting (js ''x''))) = []"
proof -
  have 1: "usable_summary (body_of [JObj [(js ''email'', JStr (js ''bob@example.com''))]])
             = Some [JObj [(js ''email'', JStr (js ''bob@example.com''))]]"
    by (simp add: usable_summary_def body_of_def)
  have 2: "JNull \<notin> set [JObj [(js ''email'', JStr (js ''bob@example.com''))]]"
    by simp
  have 3: "\<forall>u \<in> set [JObj [(js ''email'', JStr (js ''bob@example.com''))]]. \<not> spec_failing u"
    by (simp add: spec_failing_def spec_code_def)
  show ?thesis
    unfolding all_entries_succeed_clears_input
      [OF 1 2 3, of ascii_upper "js ''x''" "submitting (js ''x'')"]
    by (simp add: success_message_def)
qed

text \<open>
  Claim C4 as stated covers every summary without a failing entry. A \<open>null\<close> entry has
  no such code, yet \<open>user.data\<close> throws on it inside the filter; the \<open>catch\<close> block
  then sets the generic failure message and the input keeps its value.
\<close>

theorem null_entry_counterexample:
  "\<not> spec_failing JNull
   \<and> message (handleAddTask_settle ascii_upper (js ''x'')
        (Response True (Some (body_of [JNull]))) (submitting (js ''x'')))
       = generic_failure
   \<and> taskInput (handleAddTask_settle ascii_upper (js ''x'')
        (Response True (Some (body_of [JNull]))) (submitting (js ''x'')))
       = js ''x''"
  by (simp add: spec_failing_def spec_code_def handleAddTask_settle_def try_block_def body_of_def
      is_failed_def nested_code_def submitting_fields trim_def is_whitespace_def)

text \<open>
  Claim C5. Every transport-level failure (a rejected \<open>fetch\<close>, a response that is not
  \<open>ok\<close>, a body that is not JSON) resolves to the one generic failure message, whatever
  the response carried; that message differs from every per-entry validation message
  and from the success message.
\<close>

theorem transport_failure_generic:
  assumes "transport_failure r"
  shows "handleAddTask_settle toUpperCase a r s =
           s\<lparr>message := generic_failure, isLoading := False, inFlight := remove1 a (inFlight s)\<rparr>
         \<and> generic_failure \<noteq> validation_message failedMessages
         \<and> generic_failure \<noteq> success_message"
proof -
  obtain e where "try_block toUpperCase r s = Inl e"
    using try_block_transport [OF assms] by blast
  then have "handleAddTask_settle toUpperCase a r s =
           s\<lparr>message := generic_failure, isLoading := False, inFlight := remove1 a (inFlight s)\<rparr>"
    by (rule settle_caught)
  moreover have "generic_failure \<noteq> validation_message failedMessages"
    by (simp add: generic_failure_def validation_message_def cross_mark_def)
  moreover have "generic_failure \<noteq> success_message"
    by (simp add: generic_failure_def success_message_def)
  ultimately show ?thesis by simp
qed

theorem transport_failure_generic_witness:
  "transport_failure (Response False (Some (body_of [failing_entry (js ''alice@example.com'')])))
   \<and> transport_failure NetworkFailure
   \<and> transport_failure (Response True None)
   \<and> message (handleAddTask_settle ascii_upper (js ''x'')
        (Response False (Some (body_of [failing_entry (js ''alice@example.com'')])))
        (submitting (js ''x'')))
       = generic_failure
   \<and> message (handleAddTask_settle ascii_upper (js ''x'') NetworkFailure (submitting (js ''x'')))
       = generic_failure
   \<and> message (handleAddTask_settle ascii_upper (js ''x'') (Response True None)
        (submitting (js ''x'')))
       = generic_failure"
proof -
  have 1: "transport_failure
             (Response False (Some (body_of [failing_entry (js ''alice@example.com'')])))"
    by (simp add: transport_failure_def)
  have 2: "transport_failure NetworkFailure"
    by (simp add: transport_failure_def)
  have 3: "transport_failure (Response True None)"
    by (simp add: transport_failure_def)
  show ?thesis
    unfolding conjunct1 [OF transport_failure_generic
        [OF 1, of ascii_upper "js ''x''" "submitting (js ''x'')"]]
      conjunct1 [OF transport_failure_generic
        [OF 2, of ascii_upper "js ''x''" "submitting (js ''x'')"]]
      conjunct1 [OF transport_failure_generic
        [OF 3, of ascii_upper "js ''x''" "submitting (js ''x'')"]]
    using 1 2 3 by simp
qed

text \<open>
  Claim C6. With no scanned value and an input that is empty or consists only of
  characters that \<open>trim\<close> strips (every ECMAScript white space and line terminator),
  \<open>handleAddTask\<close> sends no request, leaves the in-flight flag as it was, and sets the
  status that asks for a task.
\<close>

theorem blank_input_no_request:
  assumes "\<forall>c \<in> set (taskInput s). is_whitespace c"
  shows "handleAddTask None s = s\<lparr>message := please_enter\<rparr>
         \<and> inFlight (handleAddTask None s) = inFlight s
         \<and> isLoading (handleAddTask None s) = isLoading s
         \<and> msg_text (message (handleAddTask None s))
             = Some (js ''Please enter a task or scan QR'')"
  using trim_whitespace_only [OF assms]
  by (simp add: handleAddTask_def input_value_def please_enter_def)

text \<open>
  The empty input, and an input of white space that is partly outside ASCII.
\<close>

theorem blank_input_no_request_witness:
  "inFlight (handleAddTask None (initial\<lparr>taskInput := blank_input\<rparr>)) = []
   \<and> \<not> isLoading (handleAddTask None (initial\<lparr>taskInput := blank_input\<rparr>))
   \<and> message (handleAddTask None (initial\<lparr>taskInput := blank_input\<rparr>)) = please_enter
   \<and> inFlight (handleAddTask None initial) = []
   \<and> \<not> isLoading (handleAddTask None initial)
   \<and> message (handleAddTask None initial) = please_enter"
proof -
  have 1: "\<forall>c \<in> set (taskInput (initial\<lparr>taskInput := blank_input\<rparr>)). is_whitespace c"
    by (simp add: blank_input_def is_whitespace_def)
  have 2: "\<forall>c \<in> set (taskInput initial). is_whitespace c"
    by (simp add: initial_def)
  show ?thesis
    unfolding conjunct1 [OF blank_input_no_request [OF 1]]
      conjunct1 [OF blank_input_no_request [OF 2]]
    by (simp add: initial_def)
qed

text \<open>
  Claim C8. A body that is JSON but has no usable summary list (the field is absent,
  \<open>null\<close> or not an array, or the body is not an object) makes the access throw inside
  the \<open>try\<close> block; the submission resolves exactly as it does for a network error, to
  the generic failure message.
\<close>

theorem unusable_summary_generic:
  assumes "usable_summary result = None"
  shows "handleAddTask_settle toUpperCase a (Response ok (Some result)) s
           = handleAddTask_settle toUpperCase a NetworkFailure s
         \<and> handleAddTask_settle toUpperCase a (Response ok (Some result)) s =
             s\<lparr>message := generic_failure, isLoading := False, inFlight := remove1 a (inFlight s)\<rparr>"
proof -
  have "\<exists>e. try_block toUpperCase (Response ok (Some result)) s = Inl e"
    using try_block_no_summary [OF assms] by blast
  then have "handleAddTask_settle toUpperCase a (Response ok (Some result)) s =
             s\<lparr>message := generic_failure, isLoading := False, inFlight := remove1 a (inFlight s)\<rparr>"
    using settle_caught by blast
  moreover have "handleAddTask_settle toUpperCase a NetworkFailure s =
             s\<lparr>message := generic_failure, isLoading := False, inFlight := remove1 a (inFlight s)\<rparr>"
    by (simp add: handleAddTask_settle_def try_block_def)
  ultimately show ?thesis by simp
qed

theorem unusable_summary_generic_witness:
  "message (handleAddTask_settle ascii_upper (js ''x'')
        (Response True (Some (JObj []))) (submitting (js ''x'')))
     = generic_failure
   \<and> message (handleAddTask_settle ascii_upper (js ''x'')
        (Response True (Some (JObj [(js ''summary'', JNull)]))) (submitting (js ''x'')))
       = generic_failure
   \<and> message (handleAddTask_settle ascii_upper (js ''x'')
        (Response True (Some (JObj [(js ''summary'', JStr (js ''none''))]))) (submitting (js ''x'')))
       = generic_failure
   \<and> message (handleAddTask_settle ascii_upper (js ''x'')
        (Response True (Some JNull)) (submitting (js ''x'')))
       = generic_failure"
proof -
  have 1: "usable_summary (JObj []) = None"
    by (simp add: usable_summary_def)
  have 2: "usable_summary (JObj [(js ''summary'', JNull)]) = None"
    by (simp add: usable_summary_def)
  have 3: "usable_summary (JObj [(js ''summary'', JStr (js ''none''))]) = None"
    by (simp add: usable_summary_def)
  have 4: "usable_summary JNull = None"
    by (simp add: usable_summary_def)
  show ?thesis
    unfolding conjunct2 [OF unusable_summary_generic
        [OF 1, of ascii_upper "js ''x''" True "submitting (js ''x'')"]]
      conjunct2 [OF unusable_summary_generic
        [OF 2, of ascii_upper "js ''x''" True "submitting (js ''x'')"]]
      conjunct2 [OF unusable_summary_generic
        [OF 3, of ascii_upper "js ''x''" True "submitting (js ''x'')"]]
      conjunct2 [OF unusable_summary_generic
        [OF 4, of ascii_upper "js ''x''" True "submitting (js ''x'')"]]
    by simp
qed

text \<open>
  Claim C9, as amended. For every summary entry other than \<open>null\<close> the classification
  returns without raising: the entry is a failure exactly when every link of
  \<open>data.output.data.code\<close> is present and the code is \<open>ATTENDANCE_NOT_VALID\<close>; an
  entry with an absent link is a success.
\<close>

theorem classification_of_entries:
  assumes "user \<noteq> JNull"
  shows "is_failed user = Inr (spec_code user = Some (JStr ATTENDANCE_NOT_VALID))
         \<and> (spec_code user = None \<longrightarrow> is_failed user = Inr False)"
  using is_failed_spec [OF assms] by (simp add: spec_failing_def)

theorem classification_of_entries_witness:
  "is_failed (JObj [(js ''email'', JStr (js ''bob@example.com'')),
                    (js ''data'', JObj [(js ''output'', JNull)])])
     = Inr False
   \<and> is_failed (failing_entry (js ''alice@example.com'')) = Inr True"
proof -
  have 1: "JObj [(js ''email'', JStr (js ''bob@example.com'')),
                 (js ''data'', JObj [(js ''output'', JNull)])]
             \<noteq> JNull"
    by simp
  have 2: "failing_entry (js ''alice@example.com'') \<noteq> JNull"
    by (simp add: failing_entry_def)
  show ?thesis
    unfolding conjunct1 [OF classification_of_entries [OF 1]]
      conjunct1 [OF classification_of_entries [OF 2]]
    by (simp add: spec_code_def failing_entry_def)
qed

text \<open>
  Claim C9 as stated says the classification never raises. The optional chain guards
  \<open>data\<close>, \<open>output\<close> and \<open>data\<close>, not the entry: on a \<open>null\<close> entry, which has none
  of the links, \<open>user.data\<close> throws.
\<close>

theorem null_entry_raises_counterexample:
  "spec_code JNull = None \<and> is_failed JNull = Inl TypeError"
  by (simp add: spec_code_def is_failed_def nested_code_def)

text \<open>
  Claim C10, as amended. Whenever a request settles, on the success path, the
  validation-failure path and the \<open>catch\<close> path alike, the \<open>finally\<close> block leaves the
  in-flight flag false and the text entry is enabled again. The Add button is enabled
  again exactly when the outcome is a failure and the input, which a failure keeps, is
  not blank; after a success the input is cleared and the button stays disabled by its
  blank-input test.
\<close>

theorem settle_resets_loading:
  "isLoading (handleAddTask_settle toUpperCase a r s) = False
   \<and> entry_disabled (handleAddTask_settle toUpperCase a r s) = False
   \<and> add_disabled (handleAddTask_settle toUpperCase a r s)
       = (isSuccess (message (handleAddTask_settle toUpperCase a r s))
          \<or> trim (taskInput s) = [])"
proof (cases "try_block toUpperCase r s")
  case (Inl e)
  then show ?thesis
    by (simp add: handleAddTask_settle_def entry_disabled_def add_disabled_def
        generic_failure_def)
next
  case (Inr s')
  from try_block_returns [OF Inr] show ?thesis
  proof
    assume "s' = s\<lparr>message := success_message, taskInput := [], showQrScanner := False\<rparr>"
    with Inr show ?thesis
      by (simp add: handleAddTask_settle_def entry_disabled_def add_disabled_def
          success_message_def trim_def)
  next
    assume "\<exists>failedMessages. s' = s\<lparr>message := validation_message failedMessages\<rparr>"
    with Inr show ?thesis
      by (auto simp: handleAddTask_settle_def entry_disabled_def add_disabled_def
          validation_message_def)
  qed
qed

text \<open>
  A submission of \<open>x\<close> that ends in a network error, in a validation failure, and in a
  success: the flag is false after each, and the Add button is enabled after the two
  failures.
\<close>

theorem settle_resets_loading_witness:
  "isLoading (submitting (js ''x''))
   \<and> \<not> isLoading (handleAddTask_settle ascii_upper (js ''x'') NetworkFailure
          (submitting (js ''x'')))
   \<and> \<not> add_disabled (handleAddTask_settle ascii_upper (js ''x'') NetworkFailure
          (submitting (js ''x'')))
   \<and> \<not> isLoading (handleAddTask_settle ascii_upper (js ''x'')
          (Response True (Some (body_of example_summary))) (submitting (js ''x'')))
   \<and> \<not> add_disabled (handleAddTask_settle ascii_upper (js ''x'')
          (Response True (Some (body_of example_summary))) (submitting (js ''x'')))
   \<and> \<not> isLoading (handleAddTask_settle ascii_upper (js ''x'')
          (Response True (Some (body_of []))) (submitting (js ''x'')))"
proof -
  have 1: "\<not> isSuccess (message (handleAddTask_settle ascii_upper (js ''x'') NetworkFailure
          (submitting (js ''x''))))"
    by (simp add: handleAddTask_settle_def try_block_def generic_failure_def)
  have 2: "\<not> isSuccess (message (handleAddTask_settle ascii_upper (js ''x'')
          (Response True (Some (body_of example_summary))) (submitting (js ''x''))))"
    by (simp add: handleAddTask_settle_def try_block_def body_of_def example_summary_def
        failing_entry_def is_failed_def nested_code_def failed_message_def
        validation_message_def)
  have 3: "trim (taskInput (submitting (js ''x''))) \<noteq> []"
    by (simp add: submitting_fields trim_def is_whitespace_def)
  show ?thesis
    using 1 2 3
      settle_resets_loading [of ascii_upper "js ''x''" NetworkFailure "submitting (js ''x'')"]
      settle_resets_loading [of ascii_upper "js ''x''"
        "Response True (Some (body_of example_summary))" "submitting (js ''x'')"]
      settle_resets_loading [of ascii_upper "js ''x''"
        "Response True (Some (body_of []))" "submitting (js ''x'')"]
    by (simp add: submitting_fields trim_def is_whitespace_def)
qed

text \<open>
  Claim C10 as stated has the submit affordance enabled again after any submission
  resolves. After a success \<open>setTaskInput("")\<close> has cleared the input, and the Add
  button, \<open>disabled={isLoading || !taskInput.trim()}\<close>, is still disabled.
\<close>

theorem add_disabled_after_success_counterexample:
  "isLoading (submitting (js ''x''))
   \<and> isSuccess (message (handleAddTask_settle ascii_upper (js ''x'')
        (Response True (Some (body_of []))) (submitting (js ''x''))))
   \<and> add_disabled (handleAddTask_settle ascii_upper (js ''x'')
        (Response True (Some (body_of []))) (submitting (js ''x'')))"
  by (simp add: handleAddTask_settle_def try_block_def body_of_def success_message_def
      add_disabled_def submitting_fields trim_def is_whitespace_def)


section \<open>The capture session\<close>

lemma stopCamera_streamRef: "streamRef (stopCamera s) = None"
  by (simp add: stopCamera_def clearInterval_def Let_def split: option.splits)

lemma stopCamera_scanIntervalRef: "scanIntervalRef (stopCamera s) = scanIntervalRef s"
  by (simp add: stopCamera_def clearInterval_def Let_def split: option.splits)

lemma stopCamera_intervals:
  "intervals (stopCamera s) =
     (case scanIntervalRef s of None \<Rightarrow> intervals s | Some h \<Rightarrow> removeAll h (intervals s))"
  by (simp add: stopCamera_def clearInterval_def Let_def split: option.splits)

lemma stopCamera_stopped:
  "stopped (stopCamera s) =
     (case streamRef s of None \<Rightarrow> stopped s | Some stream \<Rightarrow> stopped s @ stream)"
  by (simp add: stopCamera_def clearInterval_def Let_def split: option.splits)

lemma stopCamera_not_live: "\<not> timer_live (stopCamera s)"
  by (simp add: timer_live_def stopCamera_scanIntervalRef stopCamera_intervals
      split: option.splits)

lemma stopCamera_idem: "stopCamera (stopCamera s) = stopCamera s"
  by (simp add: stopCamera_def clearInterval_def Let_def split: option.splits)

lemma scanning_simps:
  "streamRef scanning = Some [0, 1]" "scanIntervalRef scanning = Some (Timer 0)"
  "intervals scanning = [Timer 0]" "stopped scanning = []"
  "videoRef scanning" "canvasRef scanning"
  by (simp_all add: scanning_def loadedmetadata_def startCamera_def mounted_def startScanning_def)


text \<open>
  Claim C7. From any state, \<open>stopCamera\<close> stops every track of the held stream, drops
  the stream and cancels the interval that the timer handle names; it cannot raise, and
  applied to a stopped session it changes nothing, so two calls equal one.
\<close>

theorem stopCamera_releases_idempotent:
  "stopCamera (stopCamera s) = stopCamera s
   \<and> streamRef (stopCamera s) = None
   \<and> (\<forall>stream. streamRef s = Some stream \<longrightarrow> set stream \<subseteq> set (stopped (stopCamera s)))
   \<and> (\<forall>h. scanIntervalRef s = Some h \<longrightarrow> h \<notin> set (intervals (stopCamera s)))"
  by (simp add: stopCamera_idem stopCamera_streamRef stopCamera_stopped stopCamera_intervals)

theorem stopCamera_releases_idempotent_witness:
  "streamRef scanning = Some [0, 1] \<and> scanIntervalRef scanning = Some (Timer 0)
   \<and> Timer 0 \<in> set (intervals scanning)
   \<and> set [0, 1] \<subseteq> set (stopped (stopCamera scanning))
   \<and> Timer 0 \<notin> set (intervals (stopCamera scanning))
   \<and> stopCamera (stopCamera scanning) = stopCamera scanning
   \<and> stopCamera (stopCamera mounted) = stopCamera mounted"
  using stopCamera_releases_idempotent [of scanning] stopCamera_releases_idempotent [of mounted]
  by (simp add: scanning_simps)

text \<open>
  Claim C2, as amended. After \<open>stopCamera\<close>, called once or twice from any state, the
  stream handle is null and the interval named by the timer handle is not scheduled.
  After a granted \<open>startCamera\<close> the stream handle is non-null. After \<open>startScanning\<close>
  with the video and canvas elements present the timer handle is non-null, its interval
  is scheduled, and the stream handle is as before.
\<close>

theorem capture_session_after_operations:
  "streamRef (stopCamera s) = None \<and> \<not> timer_live (stopCamera s)
   \<and> streamRef (stopCamera (stopCamera s)) = None \<and> \<not> timer_live (stopCamera (stopCamera s))
   \<and> streamRef (startCamera (Granted stream) s) = Some stream
   \<and> (videoRef s \<and> canvasRef s \<longrightarrow>
        scanIntervalRef (startScanning s) \<noteq> None \<and> timer_live (startScanning s)
        \<and> streamRef (startScanning s) = streamRef s)"
proof -
  have "videoRef s \<and> canvasRef s \<longrightarrow>
        scanIntervalRef (startScanning s) \<noteq> None \<and> timer_live (startScanning s)
        \<and> streamRef (startScanning s) = streamRef s"
    by (simp add: startScanning_def timer_live_def)
  moreover have "streamRef (startCamera (Granted stream) s) = Some stream"
    by (simp add: startCamera_def Let_def)
  ultimately show ?thesis
    by (simp add: stopCamera_streamRef stopCamera_not_live)
qed

theorem capture_session_after_operations_witness:
  "videoRef (startCamera (Granted [0, 1]) mounted)
   \<and> canvasRef (startCamera (Granted [0, 1]) mounted)
   \<and> streamRef (startCamera (Granted [0, 1]) mounted) = Some [0, 1]
   \<and> timer_live (startScanning (startCamera (Granted [0, 1]) mounted))
   \<and> streamRef (startScanning (startCamera (Granted [0, 1]) mounted)) = Some [0, 1]
   \<and> \<not> timer_live (stopCamera (startScanning (startCamera (Granted [0, 1]) mounted)))
   \<and> streamRef (stopCamera (startScanning (startCamera (Granted [0, 1]) mounted))) = None"
proof -
  have 1: "videoRef (startCamera (Granted [0, 1]) mounted)
           \<and> canvasRef (startCamera (Granted [0, 1]) mounted)"
    by (simp add: startCamera_def mounted_def)
  show ?thesis
    using 1
      capture_session_after_operations [of "startCamera (Granted [0, 1]) mounted" "[0, 1]"]
      capture_session_after_operations
        [of "startScanning (startCamera (Granted [0, 1]) mounted)" "[0, 1]"]
      capture_session_after_operations [of mounted "[0, 1]"]
    by simp
qed

text \<open>
  Claim C2 as stated relates the timer handle to the stream. \<open>stopCamera\<close> clears the
  interval and resets \<open>streamRef\<close> only: after start, loaded metadata and stop the timer
  handle is non-null and the stream handle is null. And \<open>startCamera\<close> stores the
  stream before any timer exists: right after a granted start the stream handle is
  non-null and the timer handle is null.
\<close>

theorem stale_timer_handle_counterexample:
  "\<not> session_invariant (stopCamera (loadedmetadata None (startCamera (Granted [0, 1]) mounted)))
   \<and> \<not> session_invariant (startCamera (Granted [0, 1]) mounted)"
  by (simp add: session_invariant_def stopCamera_streamRef stopCamera_scanIntervalRef
      loadedmetadata_def startCamera_def mounted_def startScanning_def)


section \<open>Submissions in flight\<close>

text \<open>
  While a submission is in flight the text entry, the Enter key, the Add button and the
  QR toggle do nothing.
\<close>

lemma gated_while_loading:
  assumes "isLoading s"
  shows "step toUpperCase s (Change v) = s" and "step toUpperCase s (KeyPress k) = s"
    and "step toUpperCase s ClickAdd = s" and "step toUpperCase s ClickQr = s"
  using assms by simp_all

text \<open>
  Claim C1. The claim is that no trigger can start a second submission while one is in
  flight. The scan callback is not gated: with the scanner open, a typed identifier
  submitted with Enter is in flight, the scanner is still mounted and its interval
  decodes a code, and \<open>handleQrScan\<close> sends a second request.
\<close>

theorem scan_during_submission_starts_second_request:
  "isLoading (run toUpperCase initial [ClickQr, Change (js ''abc''), KeyPress (js ''Enter'')])
   \<and> showQrScanner (run toUpperCase initial
         [ClickQr, Change (js ''abc''), KeyPress (js ''Enter'')])
   \<and> inFlight (run toUpperCase initial [ClickQr, Change (js ''abc''), KeyPress (js ''Enter'')])
       = [js ''abc'']
   \<and> tick (Timer 0) True (Code (js ''xyz'')) scanning = Some (js ''xyz'')
   \<and> inFlight (run toUpperCase initial
         [ClickQr, Change (js ''abc''), KeyPress (js ''Enter''), Scan (js ''xyz'')])
       = [js ''abc'', js ''xyz'']"
  by (simp add: run_def initial_def handleAddTask_def input_value_def Let_def trim_def
      is_whitespace_def handleQrScan_def tick_def scanning_simps)


end
